theory Spec2Isabelle
  imports Main
begin

section \<open>Python strings and the built-in operations the decoder uses\<close>

text \<open>
  A Python \<open>str\<close> is modelled as a \<open>string\<close>: a list of characters, each one code point
  below 256 (the Latin-1 range), so that \<open>length\<close> counts code points as Python's \<open>len\<close>
  does. The character classes below are those of CPython restricted to that range.
\<close>

definition code :: "char \<Rightarrow> nat" where
  "code c = of_char c"

definition nl :: char where
  "nl = CHR 0x0A"

text \<open>\<open>str.isspace\<close>, the class that \<open>strip\<close> and \<open>rstrip\<close> remove.\<close>

definition isspace :: "char \<Rightarrow> bool" where
  "isspace c = (let n = code c in
     (9 \<le> n \<and> n \<le> 13) \<or> (28 \<le> n \<and> n \<le> 32) \<or> n = 133 \<or> n = 160)"

definition lstrip :: "string \<Rightarrow> string" where
  "lstrip s = dropWhile isspace s"

definition rstrip :: "string \<Rightarrow> string" where
  "rstrip s = rev (dropWhile isspace (rev s))"

definition strip :: "string \<Rightarrow> string" where
  "strip s = rstrip (lstrip s)"

text \<open>\<open>s.lstrip(chars)\<close>: drops the leading characters that occur in \<open>chars\<close>.\<close>

definition lstrip_chars :: "string \<Rightarrow> string \<Rightarrow> string" where
  "lstrip_chars s chars = dropWhile (\<lambda>c. c \<in> set chars) s"

definition startswith :: "string \<Rightarrow> string \<Rightarrow> bool" where
  "startswith s p = (take (length p) s = p)"

text \<open>\<open>s.split(sep)\<close> for a one-character separator: never empty, \<open>''''.split(sep) = ['''']\<close>.\<close>

fun split :: "char \<Rightarrow> string \<Rightarrow> string list" where
  "split sep [] = [[]]"
| "split sep (c # cs) =
     (if c = sep then [] # split sep cs
      else (case split sep cs of [] \<Rightarrow> [[c]] | w # ws \<Rightarrow> (c # w) # ws))"

text \<open>\<open>sep.join(xs)\<close>.\<close>

fun join :: "string \<Rightarrow> string list \<Rightarrow> string" where
  "join sep [] = []"
| "join sep [x] = x"
| "join sep (x # y # ys) = x @ sep @ join sep (y # ys)"

text \<open>
  \<open>str.isidentifier\<close>: the first character is \<open>_\<close> or in XID\_Start, the others are in
  XID\_Continue, and the string is not empty. The dollar sign is in neither class.
\<close>

definition xid_start :: "char \<Rightarrow> bool" where
  "xid_start c = (let n = code c in
     (65 \<le> n \<and> n \<le> 90) \<or> (97 \<le> n \<and> n \<le> 122) \<or> n = 170 \<or> n = 181 \<or> n = 186 \<or>
     (192 \<le> n \<and> n \<le> 214) \<or> (216 \<le> n \<and> n \<le> 246) \<or> (248 \<le> n \<and> n \<le> 255))"

definition xid_continue :: "char \<Rightarrow> bool" where
  "xid_continue c = (let n = code c in
     xid_start c \<or> (48 \<le> n \<and> n \<le> 57) \<or> n = 95 \<or> n = 183)"

definition isidentifier :: "string \<Rightarrow> bool" where
  "isidentifier s = (case s of [] \<Rightarrow> False
     | c # cs \<Rightarrow> (xid_start c \<or> c = CHR ''_'') \<and> list_all xid_continue cs)"

text \<open>\<open>str.isnumeric\<close>: not empty and every character has a numeric value.\<close>

definition numeric_char :: "char \<Rightarrow> bool" where
  "numeric_char c = (let n = code c in
     (48 \<le> n \<and> n \<le> 57) \<or> n = 178 \<or> n = 179 \<or> n = 185 \<or> (188 \<le> n \<and> n \<le> 190))"

definition isnumeric :: "string \<Rightarrow> bool" where
  "isnumeric s = (s \<noteq> [] \<and> list_all numeric_char s)"

subsection \<open>The constructors \<open>int\<close> and \<open>float\<close> applied to a string\<close>

definition is_digit :: "char \<Rightarrow> bool" where
  "is_digit c = (48 \<le> code c \<and> code c \<le> 57)"

text \<open>The white space that \<open>int\<close> and \<open>float\<close> skip at both ends of their argument.\<close>

definition num_space :: "char \<Rightarrow> bool" where
  "num_space c = (let n = code c in (9 \<le> n \<and> n \<le> 13) \<or> n = 32 \<or> n = 133 \<or> n = 160)"

definition num_strip :: "string \<Rightarrow> string" where
  "num_strip s = rev (dropWhile num_space (rev (dropWhile num_space s)))"

text \<open>
  Underscores are allowed only between two digits; \<open>drop_underscores prev s\<close> removes them,
  \<open>prev\<close> being the character before \<open>s\<close>, and is \<open>None\<close> on a misplaced underscore.
\<close>

fun drop_underscores :: "char \<Rightarrow> string \<Rightarrow> string option" where
  "drop_underscores prev [] = (if prev = CHR ''_'' then None else Some [])"
| "drop_underscores prev (c # cs) =
     (if c = CHR ''_'' then (if is_digit prev then drop_underscores c cs else None)
      else if prev = CHR ''_'' \<and> \<not> is_digit c then None
      else map_option ((#) c) (drop_underscores c cs))"

text \<open>The value of a string of decimal digits, most significant first.\<close>

definition digits_value :: "string \<Rightarrow> nat" where
  "digits_value ds = foldl (\<lambda>a c. 10 * a + (code c - 48)) 0 ds"

definition all_digits :: "string \<Rightarrow> bool" where
  "all_digits ds = (ds \<noteq> [] \<and> list_all is_digit ds)"

text \<open>An optional sign: the flag is \<open>True\<close> for a minus.\<close>

definition take_sign :: "string \<Rightarrow> bool \<times> string" where
  "take_sign s = (case s of [] \<Rightarrow> (False, [])
     | c # cs \<Rightarrow> if c = CHR ''-'' then (True, cs) else if c = CHR ''+'' then (False, cs)
                else (False, c # cs))"

text \<open>
  \<open>int(s)\<close> in base 10: \<open>None\<close> stands for the \<open>ValueError\<close>. Python's integers are
  unbounded; the interpreter's optional limit on the number of digits is not modelled.
\<close>

definition py_int :: "string \<Rightarrow> int option" where
  "py_int s =
     (case drop_underscores (CHR 0x00) (num_strip s) of None \<Rightarrow> None
      | Some t \<Rightarrow> (case take_sign t of (neg, ds) \<Rightarrow>
          if all_digits ds
          then Some (if neg then - int (digits_value ds) else int (digits_value ds))
          else None))"

text \<open>
  A Python float is kept as what the text denotes: an infinity, a NaN, or the decimal
  number \<open>(-1)^neg * mantissa * 10^exponent\<close> that CPython then rounds to a double. The
  rounding itself is not modelled.
\<close>

datatype pyfloat = FInf bool | FNan | FDec bool nat int

definition ascii_lower :: "char \<Rightarrow> char" where
  "ascii_lower c = (if 65 \<le> code c \<and> code c \<le> 90 then char_of (code c + 32) else c)"

text \<open>The exponent part: empty, or \<open>e\<close>/\<open>E\<close>, an optional sign and digits up to the end.\<close>

definition float_exponent :: "string \<Rightarrow> int option" where
  "float_exponent s = (case s of [] \<Rightarrow> Some 0
     | c # cs \<Rightarrow> if c = CHR ''e'' \<or> c = CHR ''E''
         then (case take_sign cs of (neg, ds) \<Rightarrow>
                 if all_digits ds
                 then Some (if neg then - int (digits_value ds) else int (digits_value ds))
                 else None)
         else None)"

definition float_number :: "bool \<Rightarrow> string \<Rightarrow> pyfloat option" where
  "float_number neg s =
     (let ip = takeWhile is_digit s; r = dropWhile is_digit s;
          fp = (case r of [] \<Rightarrow> [] | c # cs \<Rightarrow> if c = CHR ''.'' then takeWhile is_digit cs else []);
          r' = (case r of [] \<Rightarrow> [] | c # cs \<Rightarrow> if c = CHR ''.'' then dropWhile is_digit cs else r)
      in if ip = [] \<and> fp = [] then None
         else (case float_exponent r' of None \<Rightarrow> None
               | Some e \<Rightarrow> Some (FDec neg (digits_value (ip @ fp)) (e - int (length fp)))))"

text \<open>\<open>float(s)\<close>: \<open>None\<close> stands for the \<open>ValueError\<close>.\<close>

definition py_float :: "string \<Rightarrow> pyfloat option" where
  "py_float s =
     (case drop_underscores (CHR 0x00) (num_strip s) of None \<Rightarrow> None
      | Some t \<Rightarrow> (case take_sign t of (neg, r) \<Rightarrow>
          let w = map ascii_lower r in
          if w = ''inf'' \<or> w = ''infinity'' then Some (FInf neg)
          else if w = ''nan'' then Some FNan
          else float_number neg r))"

section \<open>Values and exceptions\<close>

text \<open>The enumeration \<open>EmptyObject\<close>, whose members stand for an explicitly empty container.\<close>

datatype EmptyObject = EMPTY_LIST | EMPTY_DICT

text \<open>
  Python's dynamically typed values, as far as the decoder builds them. A \<open>dict\<close> keeps its
  insertion order and is an association list with distinct keys.
\<close>

datatype pyval =
    PNone
  | PBool bool
  | PInt int
  | PFloat pyfloat
  | PStr string
  | PEmpty EmptyObject
  | PList "pyval list"
  | PDict "(string \<times> pyval) list"

type_synonym pydict = "(string \<times> pyval) list"

fun isinstance_dict :: "pyval \<Rightarrow> bool" where
  "isinstance_dict (PDict d) = True"
| "isinstance_dict v = False"

text \<open>\<open>d[k] = v\<close>: an existing key keeps its position, a new key goes to the end.\<close>

fun dict_set :: "pydict \<Rightarrow> string \<Rightarrow> pyval \<Rightarrow> pydict" where
  "dict_set [] k v = [(k, v)]"
| "dict_set ((k', v') # d) k v = (if k' = k then (k, v) # d else (k', v') # dict_set d k v)"

text \<open>
  Modelled from the spec: the exception class \<open>STCParseError\<close>, whose module is not among the
  sources. It is the single parse error family and carries a message; the message texts
  are kept as the raise site with the values it formats into the text.
\<close>

datatype message =
    Line nat message
  | InvalidKeyIdentifier string
  | InvalidKeyListIndex string
  | NegativeListIndex string
  | InvalidValue string
  | SetValueAndItem string
  | SetValueDirectlyAndItem string
  | SetTwoValues string pyval pyval
  | ListAndDict string
  | ListIndicesMissing string
  | MissingColon nat string
  | EmptyStringBlock nat
  | UnclosedStringBlock nat

datatype error =
    STCParseError message
  | NotImplementedError
  | UnboundLocalError string
  | KeyError string
  | IndexError
  | ValueError
  | TypeError

definition raise_parse_error :: "message \<Rightarrow> nat option \<Rightarrow> error + 'a" where
  "raise_parse_error msg ln =
     (case ln of Some n \<Rightarrow> Inl (STCParseError (Line n msg)) | None \<Rightarrow> Inl (STCParseError msg))"

section \<open>Key paths and value tokens\<close>

text \<open>
  The body of the loop of \<open>parse_key\<close> for one piece. \<open>piece[0]\<close> is read only after
  \<open>isidentifier\<close> has accepted the piece, which is then not empty.
\<close>

definition check_piece :: "string \<Rightarrow> nat option \<Rightarrow> string \<Rightarrow> error + unit" where
  "check_piece key ln piece =
     (if \<not> isidentifier piece then raise_parse_error (InvalidKeyIdentifier key) ln
      else (case piece of [] \<Rightarrow> Inl IndexError
        | c # rest \<Rightarrow>
            if c = CHR ''$'' then
              (if \<not> isnumeric rest then raise_parse_error (InvalidKeyListIndex key) ln
               else (case py_int rest of None \<Rightarrow> Inl ValueError
                 | Some i \<Rightarrow> if i < 0 then raise_parse_error (NegativeListIndex key) ln
                            else Inr ()))
            else Inr ()))"

fun parse_key_loop :: "string \<Rightarrow> nat option \<Rightarrow> string list \<Rightarrow> string list \<Rightarrow> error + string list" where
  "parse_key_loop key ln [] path = Inr path"
| "parse_key_loop key ln (piece # pieces) path =
     (case check_piece key ln piece of Inl e \<Rightarrow> Inl e
      | Inr _ \<Rightarrow> parse_key_loop key ln pieces (path @ [piece]))"

definition parse_key :: "string \<Rightarrow> nat option \<Rightarrow> error + string list" where
  "parse_key key ln = parse_key_loop key ln (split (CHR ''.'') key) []"

text \<open>
  \<open>parse_value\<close> returns the value and \<open>False\<close>, or the number of leading backticks and
  \<open>True\<close> for the start of a string block.
\<close>

definition parse_value :: "string \<Rightarrow> nat option \<Rightarrow> error + (pyval \<times> bool)" where
  "parse_value val ln =
     (if val = ''`true`'' then Inr (PBool True, False)
      else if val = ''`false`'' then Inr (PBool False, False)
      else if val = ''[]'' then Inr (PEmpty EMPTY_LIST, False)
      else if val = ''{}'' then Inr (PEmpty EMPTY_DICT, False)
      else (case py_int val of Some n \<Rightarrow> Inr (PInt n, False)
        | None \<Rightarrow> (case py_float val of Some f \<Rightarrow> Inr (PFloat f, False)
          | None \<Rightarrow>
              if \<not> startswith val ''```'' then raise_parse_error (InvalidValue val) ln
              else Inr (PInt (int (length val) - int (length (lstrip_chars val ''`''))), True))))"

section \<open>The tree builder\<close>

text \<open>
  \<open>fill_in_value\<close> walks \<open>path[:-1]\<close> from \<open>parsed\<close>, creating dictionaries on demand, and
  stores the value under the last piece. The source mutates the dictionaries in place; the
  model returns the updated dictionary. \<open>piece\<close> is the loop variable, unbound (\<open>None\<close>) as
  long as the loop body has not run; the message of the last \<open>raise\<close> reads
  \<open>current[piece]\<close>.
\<close>

definition fill_in_last :: "string list \<Rightarrow> pyval \<Rightarrow> string option \<Rightarrow> pydict \<Rightarrow> error + pydict" where
  "fill_in_last path val piece current =
     (case map_of current (last path) of
        Some v \<Rightarrow>
          if isinstance_dict v
          then raise_parse_error (SetValueDirectlyAndItem (join ''.'' path)) None
          else (case piece of None \<Rightarrow> Inl (UnboundLocalError ''piece'')
            | Some p \<Rightarrow> (case map_of current p of None \<Rightarrow> Inl (KeyError p)
                | Some w \<Rightarrow> raise_parse_error (SetTwoValues (join ''.'' path) w val) None))
      | None \<Rightarrow> Inr (dict_set current (last path) val))"

definition store :: "pydict \<Rightarrow> string \<Rightarrow> error + pydict \<Rightarrow> error + pydict" where
  "store current p r = (case r of Inl e \<Rightarrow> Inl e | Inr c \<Rightarrow> Inr (dict_set current p (PDict c)))"

fun fill_in_value_loop ::
  "string list \<Rightarrow> pyval \<Rightarrow> nat \<Rightarrow> string list \<Rightarrow> string option \<Rightarrow> pydict \<Rightarrow> error + pydict" where
  "fill_in_value_loop path val i [] piece current = fill_in_last path val piece current"
| "fill_in_value_loop path val i (p # ps) piece current =
     (case map_of current p of
        None \<Rightarrow> store current p (fill_in_value_loop path val (Suc i) ps (Some p) [])
      | Some v \<Rightarrow> (case v of
          PDict c \<Rightarrow> store current p (fill_in_value_loop path val (Suc i) ps (Some p) c)
        | _ \<Rightarrow> raise_parse_error (SetValueAndItem (join ''.'' (take (Suc i) path))) None))"

definition fill_in_value :: "string list \<Rightarrow> pyval \<Rightarrow> pydict \<Rightarrow> error + pydict" where
  "fill_in_value path val parsed =
     (if path = [] then Inl IndexError
      else fill_in_value_loop path val 0 (butlast path) None parsed)"

section \<open>The finalizer\<close>

text \<open>\<open>any(P(key[0]) for key in keys)\<close>: reading \<open>key[0]\<close> of an empty key is an \<open>IndexError\<close>.\<close>

fun any_key :: "(char \<Rightarrow> bool) \<Rightarrow> string list \<Rightarrow> error + bool" where
  "any_key P [] = Inr False"
| "any_key P (key # keys) =
     (case key of [] \<Rightarrow> Inl IndexError | c # _ \<Rightarrow> if P c then Inr True else any_key P keys)"

text \<open>\<open>[int(key[1:]) for key in keys]\<close>.\<close>

fun all_indices_of :: "string list \<Rightarrow> error + int list" where
  "all_indices_of [] = Inr []"
| "all_indices_of (key # keys) =
     (case py_int (tl key) of None \<Rightarrow> Inl ValueError
      | Some i \<Rightarrow> (case all_indices_of keys of Inl e \<Rightarrow> Inl e | Inr ixs \<Rightarrow> Inr (i # ixs)))"

fun py_min :: "int list \<Rightarrow> int" where
  "py_min [] = 0"
| "py_min (x # xs) = fold min xs x"

fun py_max :: "int list \<Rightarrow> int" where
  "py_max [] = 0"
| "py_max (x # xs) = fold max xs x"

text \<open>\<open>xs[i] = v\<close> on a list: a negative index counts from the end.\<close>

definition list_setitem :: "'a list \<Rightarrow> int \<Rightarrow> 'a \<Rightarrow> error + 'a list" where
  "list_setitem xs i v =
     (let n = int (length xs); j = (if i < 0 then i + n else i)
      in if 0 \<le> j \<and> j < n then Inr (xs[nat j := v]) else Inl IndexError)"

definition child_prefix :: "string \<Rightarrow> string \<Rightarrow> string" where
  "child_prefix prefix key = (if prefix \<noteq> [] then prefix @ ''.'' @ key else key)"

fun empty_value :: "EmptyObject \<Rightarrow> pyval" where
  "empty_value EMPTY_LIST = PList []"
| "empty_value EMPTY_DICT = PDict []"

text \<open>
  \<open>finalize_dict\<close> with its two loops, which run over the items of \<open>d\<close> in insertion
  order: \<open>finalize_list_loop\<close> fills \<open>list_data\<close>, \<open>finalize_dict_loop\<close> replaces the
  values of \<open>d\<close>.
\<close>

fun finalize_dict :: "pydict \<Rightarrow> string \<Rightarrow> error + pyval"
  and finalize_list_loop :: "string \<Rightarrow> pydict \<Rightarrow> pyval list \<Rightarrow> error + pyval list"
  and finalize_dict_loop :: "string \<Rightarrow> pydict \<Rightarrow> error + pydict" where
  "finalize_dict d prefix =
     (if length d = 0 then Inr (PDict d)
      else (case hd (map fst d) of [] \<Rightarrow> Inl IndexError
        | c # _ \<Rightarrow>
          if c = CHR ''$'' then
            (case any_key (\<lambda>k. k \<noteq> CHR ''$'') (map fst d) of Inl e \<Rightarrow> Inl e
             | Inr mixed \<Rightarrow>
                 if mixed then raise_parse_error (ListAndDict prefix) None
                 else (case all_indices_of (map fst d) of Inl e \<Rightarrow> Inl e
                   | Inr all_indices \<Rightarrow>
                       if py_min all_indices \<noteq> 0 \<or>
                          py_max all_indices \<noteq> int (length all_indices) - 1
                       then raise_parse_error (ListIndicesMissing prefix) None
                       else (case finalize_list_loop prefix d
                                   (replicate (length all_indices) PNone) of
                               Inl e \<Rightarrow> Inl e
                             | Inr list_data \<Rightarrow> Inr (PList list_data))))
          else
            (case any_key (\<lambda>k. k = CHR ''$'') (map fst d) of Inl e \<Rightarrow> Inl e
             | Inr mixed \<Rightarrow>
                 if mixed then raise_parse_error (ListAndDict prefix) None
                 else (case finalize_dict_loop prefix d of Inl e \<Rightarrow> Inl e
                       | Inr d' \<Rightarrow> Inr (PDict d')))))"
| "finalize_list_loop prefix [] list_data = Inr list_data"
| "finalize_list_loop prefix ((key, v) # items) list_data =
     (case py_int (tl key) of None \<Rightarrow> Inl ValueError
      | Some index \<Rightarrow>
         (case (case v of PDict c \<Rightarrow> finalize_dict c (child_prefix prefix key)
                  | PEmpty e \<Rightarrow> Inr (empty_value e)
                  | _ \<Rightarrow> Inr v) of
            Inl e \<Rightarrow> Inl e
          | Inr r \<Rightarrow> (case list_setitem list_data index r of Inl e \<Rightarrow> Inl e
              | Inr list_data' \<Rightarrow> finalize_list_loop prefix items list_data')))"
| "finalize_dict_loop prefix [] = Inr []"
| "finalize_dict_loop prefix ((key, v) # items) =
     (case (case v of PDict c \<Rightarrow> finalize_dict c (child_prefix prefix key)
              | PEmpty e \<Rightarrow> Inr (empty_value e)
              | _ \<Rightarrow> Inr v) of
        Inl e \<Rightarrow> Inl e
      | Inr r \<Rightarrow> (case finalize_dict_loop prefix items of Inl e \<Rightarrow> Inl e
          | Inr rest \<Rightarrow> Inr ((key, r) # rest)))"

section \<open>The line scanner\<close>

record state =
  in_a_string :: bool
  string_value :: string
  bt_count :: pyval
  string_key_path :: "string list option"
  parsed :: pydict

definition init_state :: state where
  "init_state = \<lparr>in_a_string = False, string_value = [], bt_count = PInt (- 1),
     string_key_path = None, parsed = []\<rparr>"

text \<open>\<open>"`" * bt_count\<close>: a count below one gives the empty string.\<close>

fun backticks :: "pyval \<Rightarrow> error + string" where
  "backticks (PInt n) = Inr (replicate (nat n) (CHR 0x60))"
| "backticks (PBool b) = Inr (replicate (if b then 1 else 0) (CHR 0x60))"
| "backticks v = Inl TypeError"

text \<open>The body of the loop of \<open>loads\<close> for the line of 0-based number \<open>line_num\<close>.\<close>

definition loads_step :: "nat \<Rightarrow> string \<Rightarrow> state \<Rightarrow> error + state" where
  "loads_step line_num line st =
     (if \<not> in_a_string st then
        (if strip line = [] then Inr st
         else if CHR '':'' \<notin> set line
         then Inl (STCParseError (MissingColon (line_num + 1) line))
         else (case parse_key (strip (takeWhile (\<lambda>c. c \<noteq> CHR '':'') line)) (Some (line_num + 1)) of
             Inl e \<Rightarrow> Inl e
           | Inr parsed_key_path \<Rightarrow>
              (case parse_value (strip (tl (dropWhile (\<lambda>c. c \<noteq> CHR '':'') line)))
                      (Some (line_num + 1)) of
                 Inl e \<Rightarrow> Inl e
               | Inr (parsed_value, is_string) \<Rightarrow>
                   if is_string
                   then Inr (st\<lparr>in_a_string := True, string_value := [],
                                string_key_path := Some parsed_key_path,
                                bt_count := parsed_value\<rparr>)
                   else (case fill_in_value parsed_key_path parsed_value (parsed st) of
                           Inl e \<Rightarrow> Inl e
                         | Inr p \<Rightarrow> Inr (st\<lparr>parsed := p\<rparr>)))))
      else
        (case backticks (bt_count st) of Inl e \<Rightarrow> Inl e
         | Inr fence \<Rightarrow>
            if rstrip line = fence then
              (if length (string_value st) = 0
               then Inl (STCParseError (EmptyStringBlock (line_num + 1)))
               else (case string_key_path st of None \<Rightarrow> Inl TypeError
                 | Some path \<Rightarrow>
                    (case fill_in_value path (PStr (butlast (string_value st))) (parsed st) of
                       Inl e \<Rightarrow> Inl e
                     | Inr p \<Rightarrow> Inr (st\<lparr>in_a_string := False, string_value := [],
                                        bt_count := PInt (- 1), string_key_path := None,
                                        parsed := p\<rparr>))))
            else Inr (st\<lparr>string_value := string_value st @ line @ [nl]\<rparr>)))"

fun loads_loop :: "nat \<Rightarrow> string list \<Rightarrow> state \<Rightarrow> error + state" where
  "loads_loop line_num [] st = Inr st"
| "loads_loop line_num (line # lines) st =
     (case loads_step line_num line st of Inl e \<Rightarrow> Inl e
      | Inr st' \<Rightarrow> loads_loop (Suc line_num) lines st')"

datatype impl = Rust | Python

text \<open>
  \<open>loads\<close>. The optional native engine \<open>rust_loads\<close> is a parameter: \<open>None\<close> when its
  import failed. After the loop \<open>line_num + 1\<close> is the number of lines.
\<close>

definition loads :: "(string \<Rightarrow> error + pyval) option \<Rightarrow> string \<Rightarrow> impl \<Rightarrow> error + pyval" where
  "loads rust_loads stc_str impl =
     (if impl = Rust then
        (case rust_loads of Some engine \<Rightarrow> engine stc_str | None \<Rightarrow> Inl NotImplementedError)
      else if strip stc_str = ''{}'' then Inr (PDict [])
      else (case loads_loop 0 (split nl stc_str) init_state of Inl e \<Rightarrow> Inl e
        | Inr st \<Rightarrow>
            if in_a_string st
            then Inl (STCParseError (UnclosedStringBlock (length (split nl stc_str))))
            else finalize_dict (parsed st) []))"

text \<open>The default of \<open>impl\<close> is \<open>'rust'\<close>.\<close>

definition loads_default :: "(string \<Rightarrow> error + pyval) option \<Rightarrow> string \<Rightarrow> error + pyval" where
  "loads_default rust_loads stc_str = loads rust_loads stc_str Rust"

section \<open>Notions used to state the properties\<close>

text \<open>
  The document that the test fixture \<open>make_fence\<close> builds, \<open>f"{key}: {ticks}\n{s}\n{ticks}"\<close>,
  for a fence of \<open>f\<close> backticks.
\<close>

definition fenced :: "string \<Rightarrow> nat \<Rightarrow> string \<Rightarrow> string" where
  "fenced key f s =
     key @ '': '' @ replicate f (CHR 0x60) @ [nl] @ s @ [nl] @ replicate f (CHR 0x60)"

text \<open>
  The specification's condition on the content of a string block, in its words: no line
  consists solely of backticks and has length at least \<open>f\<close>.
\<close>

definition backtick_only_line :: "nat \<Rightarrow> string \<Rightarrow> bool" where
  "backtick_only_line f l = (f \<le> length l \<and> list_all (\<lambda>c. c = CHR 0x60) l)"

definition no_backtick_only_line :: "nat \<Rightarrow> string \<Rightarrow> bool" where
  "no_backtick_only_line f s = list_all (\<lambda>l. \<not> backtick_only_line f l) (split nl s)"

text \<open>
  The value that the tree holds under a key path: \<open>d[p1][p2]\<dots>\<close>, \<open>None\<close> when a key is
  missing or a value on the way is not a dictionary.
\<close>

fun lookup :: "pyval \<Rightarrow> string list \<Rightarrow> pyval option" where
  "lookup v [] = Some v"
| "lookup v (p # ps) =
     (case v of PDict d \<Rightarrow> (case map_of d p of None \<Rightarrow> None | Some w \<Rightarrow> lookup w ps)
      | _ \<Rightarrow> None)"

text \<open>
  A line on which the loop of \<open>loads\<close> calls \<open>fill_in_value(path, val, parsed)\<close>, after the
  two call sites of the source: outside a string block a line \<open>key: literal\<close> whose key
  parses to \<open>path\<close> and whose value is a finished literal; inside a string block the
  closing fence of the block opened for \<open>path\<close>, the value being the accumulated text
  without its last newline.
\<close>

definition assignment_line :: "nat \<Rightarrow> string \<Rightarrow> state \<Rightarrow> string list \<Rightarrow> pyval \<Rightarrow> bool" where
  "assignment_line line_num line st path val =
     (if \<not> in_a_string st then
        strip line \<noteq> [] \<and> CHR '':'' \<in> set line \<and>
        parse_key (strip (takeWhile (\<lambda>c. c \<noteq> CHR '':'') line)) (Some (line_num + 1))
          = Inr path \<and>
        parse_value (strip (tl (dropWhile (\<lambda>c. c \<noteq> CHR '':'') line))) (Some (line_num + 1))
          = Inr (val, False)
      else
        backticks (bt_count st) = Inr (rstrip line) \<and> length (string_value st) \<noteq> 0 \<and>
        string_key_path st = Some path \<and> val = PStr (butlast (string_value st)))"

text \<open>An invariant of the scanner: the key path of an open string block is not empty.\<close>

definition key_path_ok :: "state \<Rightarrow> bool" where
  "key_path_ok st = (string_key_path st \<noteq> Some [])"

section \<open>Facts about the built-in operations\<close>

lemma split_nonempty: "split sep s \<noteq> []"
  by (induction s) (auto split: list.splits)

lemma split_no_sep: "sep \<notin> set s \<Longrightarrow> split sep s = [s]"
  by (induction s) auto

lemma split_append_sep: "split sep (xs @ sep # ys) = split sep xs @ split sep ys"
proof (induction xs)
  case Nil
  then show ?case by simp
next
  case (Cons c xs)
  obtain w ws where "split sep xs = w # ws"
    using split_nonempty [of sep xs] by (cases "split sep xs") auto
  with Cons show ?case by simp
qed

lemma concat_split: "concat (map (\<lambda>l. l @ [sep]) (split sep s)) = s @ [sep]"
proof (induction s)
  case Nil
  then show ?case by simp
next
  case (Cons c s)
  obtain w ws where "split sep s = w # ws"
    using split_nonempty [of sep s] by (cases "split sep s") auto
  with Cons show ?case by auto
qed

lemma rev_dropWhile_rev_Cons:
  "\<not> P c \<Longrightarrow> rev (dropWhile P (rev (c # cs))) = c # rev (dropWhile P (rev cs))"
  by (simp add: dropWhile_append3)

lemma dropWhile_replicate_same: "\<not> P c \<Longrightarrow> dropWhile P (replicate n c) = replicate n c"
  by (cases n) auto

lemma takeWhile_replicate_same: "takeWhile (\<lambda>c. c = x) (replicate n x) = replicate n x"
  by (induction n) auto

lemma backtick_code: "code (CHR 0x60) = 96"
  by (simp add: code_def)

lemma backtick_not_space: "\<not> isspace (CHR 0x60)"
  by (simp add: isspace_def backtick_code)

lemma strip_Cons_nonspace:
  assumes "\<not> isspace c"
  shows "\<exists>t. strip (c # cs) = c # t"
proof -
  have "lstrip (c # cs) = c # cs"
    using assms by (simp add: lstrip_def)
  moreover have "rstrip (c # cs) = c # rev (dropWhile isspace (rev cs))"
    unfolding rstrip_def using assms by (rule rev_dropWhile_rev_Cons)
  ultimately show ?thesis by (simp add: strip_def)
qed

lemma rstrip_fence: "rstrip (replicate f (CHR 0x60)) = replicate f (CHR 0x60)"
  by (simp add: rstrip_def dropWhile_replicate_same backtick_not_space)

lemma strip_space_fence: "strip (CHR '' '' # replicate f (CHR 0x60)) = replicate f (CHR 0x60)"
proof -
  have "isspace (CHR '' '')" by (simp add: isspace_def code_def)
  then have "lstrip (CHR '' '' # replicate f (CHR 0x60)) = replicate f (CHR 0x60)"
    by (simp add: lstrip_def dropWhile_replicate_same backtick_not_space)
  then show ?thesis by (simp add: strip_def rstrip_fence)
qed

lemma startswith_Cons: "startswith val (c # p) \<Longrightarrow> \<exists>cs. val = c # cs"
  by (cases val) (auto simp: startswith_def)

lemma length_lstrip_chars:
  "int (length val) - int (length (lstrip_chars val chars)) =
   int (length (takeWhile (\<lambda>c. c \<in> set chars) val))"
proof -
  have "length (takeWhile (\<lambda>c. c \<in> set chars) val) +
        length (dropWhile (\<lambda>c. c \<in> set chars) val) = length val"
    by (metis length_append takeWhile_dropWhile_id)
  then show ?thesis by (simp add: lstrip_chars_def)
qed

subsection \<open>No number starts with a backtick\<close>

lemma num_strip_backtick: "\<exists>t. num_strip (CHR 0x60 # cs) = CHR 0x60 # t"
proof -
  have ns: "\<not> num_space (CHR 0x60)"
    by (simp add: num_space_def backtick_code)
  then have "num_strip (CHR 0x60 # cs) = CHR 0x60 # rev (dropWhile num_space (rev cs))"
    unfolding num_strip_def using ns rev_dropWhile_rev_Cons [of num_space "CHR 0x60" cs] by simp
  then show ?thesis by blast
qed

lemma drop_underscores_backtick:
  "drop_underscores (CHR 0x00) (CHR 0x60 # t) = Some u \<Longrightarrow> \<exists>u'. u = CHR 0x60 # u'"
  by auto

lemma py_int_backtick: "py_int (CHR 0x60 # cs) = None"
proof -
  obtain t where t: "num_strip (CHR 0x60 # cs) = CHR 0x60 # t"
    using num_strip_backtick by blast
  show ?thesis
  proof (cases "drop_underscores (CHR 0x00) (CHR 0x60 # t)")
    case None
    then show ?thesis by (simp add: py_int_def t)
  next
    case (Some u)
    then obtain u' where "u = CHR 0x60 # u'"
      using drop_underscores_backtick by blast
    with Some show ?thesis
      by (simp add: py_int_def t take_sign_def all_digits_def is_digit_def backtick_code)
  qed
qed

lemma py_float_backtick: "py_float (CHR 0x60 # cs) = None"
proof -
  obtain t where t: "num_strip (CHR 0x60 # cs) = CHR 0x60 # t"
    using num_strip_backtick by blast
  show ?thesis
  proof (cases "drop_underscores (CHR 0x00) (CHR 0x60 # t)")
    case None
    then show ?thesis by (simp add: py_float_def t)
  next
    case (Some u)
    then obtain u' where "u = CHR 0x60 # u'"
      using drop_underscores_backtick by blast
    with Some show ?thesis
      by (simp add: py_float_def t take_sign_def float_number_def is_digit_def backtick_code
          ascii_lower_def Let_def)
  qed
qed

lemma literals_not_numbers:
  "py_int ''`true`'' = None" "py_int ''`false`'' = None"
  "py_int ''[]'' = None" "py_int ''{}'' = None"
  "py_float ''`true`'' = None" "py_float ''`false`'' = None"
  "py_float ''[]'' = None" "py_float ''{}'' = None"
  by code_simp+

section \<open>Facts about \<open>parse_value\<close>\<close>

lemma parse_value_string_start:
  assumes "startswith val ''```''"
  shows "parse_value val ln =
         Inr (PInt (int (length (takeWhile (\<lambda>c. c = CHR 0x60) val))), True)"
proof -
  obtain cs where v: "val = CHR 0x60 # cs"
    using assms startswith_Cons by blast
  have lits: "val \<noteq> ''`true`''" "val \<noteq> ''`false`''" "val \<noteq> ''[]''" "val \<noteq> ''{}''"
    using assms by (auto simp: startswith_def)
  have "py_int val = None" "py_float val = None"
    by (simp_all add: v py_int_backtick py_float_backtick)
  then show ?thesis
    using lits assms length_lstrip_chars [of val "''`''"]
    by (simp add: parse_value_def)
qed

lemma parse_value_short_backticks:
  assumes "startswith val ''`''" "val \<noteq> ''`true`''" "val \<noteq> ''`false`''"
    "\<not> startswith val ''```''"
  shows "parse_value val ln = raise_parse_error (InvalidValue val) ln"
proof -
  obtain cs where v: "val = CHR 0x60 # cs"
    using assms(1) startswith_Cons by blast
  have "py_int val = None" "py_float val = None"
    by (simp_all add: v py_int_backtick py_float_backtick)
  then show ?thesis
    using assms by (auto simp add: parse_value_def v)
qed

lemma parse_value_fence:
  assumes "3 \<le> f"
  shows "parse_value (replicate f (CHR 0x60)) ln = Inr (PInt (int f), True)"
proof -
  obtain g where g: "f = Suc (Suc (Suc g))"
    using assms by (metis add_2_eq_Suc' le_Suc_ex numeral_3_eq_3 add_Suc)
  have "startswith (replicate f (CHR 0x60)) ''```''"
    by (simp add: g startswith_def)
  then show ?thesis
    using parse_value_string_start by (simp add: takeWhile_replicate_same)
qed

section \<open>Facts about the line scanner\<close>

lemma loads_loop_append:
  "loads_loop n (xs @ ys) st =
   (case loads_loop n xs st of Inl e \<Rightarrow> Inl e | Inr st' \<Rightarrow> loads_loop (n + length xs) ys st')"
  by (induction xs arbitrary: n st) (auto split: sum.splits)

lemma loads_loop_Cons_ok:
  "loads_step n l st = Inr st' \<Longrightarrow> loads_loop n (l # ls) st = loads_loop (Suc n) ls st'"
  by simp

lemma parse_key_a: "parse_key ''a'' ln = Inr [''a'']"
  by code_simp

lemma strip_a: "strip ''a'' = ''a''"
  by code_simp

lemma fill_in_value_single: "fill_in_value [k] v [] = Inr [(k, v)]"
  by (simp add: fill_in_value_def fill_in_last_def)

text \<open>The opening line of a string block for the key \<open>a\<close>.\<close>

lemma opening_step:
  assumes "3 \<le> f" "\<not> in_a_string st"
  shows "loads_step n (''a: '' @ replicate f (CHR 0x60)) st =
         Inr (st\<lparr>in_a_string := True, string_value := [], string_key_path := Some [''a''],
                  bt_count := PInt (int f)\<rparr>)"
proof -
  have ne: "strip (''a: '' @ replicate f (CHR 0x60)) \<noteq> []"
    by (simp add: strip_def lstrip_def rstrip_def isspace_def code_def rev_dropWhile_rev_Cons)
  show ?thesis
    using assms ne
    by (simp add: loads_step_def strip_a parse_key_a strip_space_fence parse_value_fence)
qed

text \<open>Inside a block, lines that do not trim to the fence are accumulated.\<close>

lemma content_loop:
  assumes "in_a_string st" "bt_count st = PInt (int f)"
    "\<forall>l \<in> set ls. rstrip l \<noteq> replicate f (CHR 0x60)"
  shows "loads_loop n ls st =
         Inr (st\<lparr>string_value := string_value st @ concat (map (\<lambda>l. l @ [nl]) ls)\<rparr>)"
  using assms
proof (induction ls arbitrary: n st)
  case Nil
  then show ?case by simp
next
  case (Cons l ls)
  have step: "loads_step n l st = Inr (st\<lparr>string_value := string_value st @ l @ [nl]\<rparr>)"
    using Cons.prems by (simp add: loads_step_def)
  show ?case
    using Cons.prems Cons.IH [of "st\<lparr>string_value := string_value st @ l @ [nl]\<rparr>" "Suc n"]
    by (simp add: step)
qed

lemma closing_step:
  assumes "in_a_string st" "bt_count st = PInt (int f)" "string_value st = C @ [nl]"
    "string_key_path st = Some [k]" "parsed st = []"
  shows "loads_step n (replicate f (CHR 0x60)) st =
         Inr (st\<lparr>in_a_string := False, string_value := [], bt_count := PInt (- 1),
                  string_key_path := None, parsed := [(k, PStr C)]\<rparr>)"
  using assms by (simp add: loads_step_def rstrip_fence fill_in_value_single)

lemma strip_fenced_a: "strip (fenced ''a'' f C) \<noteq> ''{}''"
proof -
  have "\<not> isspace (CHR ''a'')" by (simp add: isspace_def code_def)
  then obtain t where
    "strip (CHR ''a'' # ('': '' @ replicate f (CHR 0x60) @ [nl] @ C @ [nl] @ replicate f (CHR 0x60)))
       = CHR ''a'' # t"
    using strip_Cons_nonspace by blast
  then show ?thesis by (simp add: fenced_def)
qed

lemma split_fenced:
  "split nl (fenced ''a'' f C) =
   (''a: '' @ replicate f (CHR 0x60)) # split nl C @ [replicate f (CHR 0x60)]"
proof -
  have a: "split nl (''a: '' @ replicate f (CHR 0x60)) = [''a: '' @ replicate f (CHR 0x60)]"
    by (rule split_no_sep) (auto simp: nl_def)
  have b: "split nl (replicate f (CHR 0x60)) = [replicate f (CHR 0x60)]"
    by (rule split_no_sep) (auto simp: nl_def)
  have "fenced ''a'' f C =
        (''a: '' @ replicate f (CHR 0x60)) @ nl # (C @ nl # replicate f (CHR 0x60))"
    by (simp add: fenced_def)
  then have "split nl (fenced ''a'' f C) =
      split nl (''a: '' @ replicate f (CHR 0x60)) @ split nl C @ split nl (replicate f (CHR 0x60))"
    by (simp only: split_append_sep)
  then show ?thesis by (simp only: a b) simp
qed


section \<open>Facts about the tree builder\<close>

lemma map_of_dict_set: "map_of (dict_set d k v) k' = (if k' = k then Some v else map_of d k')"
  by (induction d) auto

lemma lookup_not_dict_Cons: "\<not> isinstance_dict w \<Longrightarrow> lookup w (p # ps) = None"
  by (cases w) auto

lemma lookup_Cons_Some: "lookup w (p # ps) = Some v \<Longrightarrow> isinstance_dict w"
  by (cases w) auto

lemma lookup_Cons_dict: "lookup (PDict d) (p # ps) = (case map_of d p of None \<Rightarrow> None | Some w \<Rightarrow> lookup w ps)"
  by simp

lemma store_Inl: "store cur p (Inl e) = Inl e"
  by (simp add: store_def)

lemma store_Inr: "store cur p (Inr c) = Inr (dict_set cur p (PDict c))"
  by (simp add: store_def)

lemma store_eq_Inr: "store cur p r = Inr cur' \<Longrightarrow> \<exists>c. r = Inr c \<and> cur' = dict_set cur p (PDict c)"
  by (cases r) (auto simp: store_def)

lemma raise_None: "raise_parse_error m None = Inl (STCParseError m)"
  by (simp add: raise_parse_error_def)

lemma fill_last_ok:
  "fill_in_last path val piece cur = Inr cur' \<Longrightarrow>
   map_of cur (last path) = None \<and> cur' = dict_set cur (last path) val"
  by (auto simp: fill_in_last_def raise_None split: option.splits if_splits)

lemma fill_loop_step_ok:
  assumes "fill_in_value_loop path val i (p # ps) piece cur = Inr cur'"
  shows "\<exists>c c'. (map_of cur p = None \<and> c = [] \<or> map_of cur p = Some (PDict c)) \<and>
           fill_in_value_loop path val (Suc i) ps (Some p) c = Inr c' \<and>
           cur' = dict_set cur p (PDict c')"
proof (cases "map_of cur p")
  case None
  then show ?thesis using assms store_eq_Inr by fastforce
next
  case (Some w)
  then show ?thesis
    using assms store_eq_Inr by (cases w) (fastforce simp: raise_None)+
qed

lemma fill_loop_lookup:
  "fill_in_value_loop path val i ps piece cur = Inr cur' \<Longrightarrow>
   lookup (PDict cur') (ps @ [last path]) = Some val"
proof (induction ps arbitrary: i piece cur cur')
  case Nil
  then show ?case
    using fill_last_ok [of path val piece cur cur'] by (simp add: map_of_dict_set)
next
  case (Cons p ps)
  obtain c c' where "fill_in_value_loop path val (Suc i) ps (Some p) c = Inr c'"
      "cur' = dict_set cur p (PDict c')"
    using fill_loop_step_ok [OF Cons.prems] by blast
  then show ?case
    using Cons.IH [of "Suc i" "Some p" c c'] by (simp add: map_of_dict_set)
qed

lemma fill_loop_persist:
  "fill_in_value_loop path val i ps piece cur = Inr cur' \<Longrightarrow>
   lookup (PDict cur) R = Some v \<Longrightarrow>
   \<exists>v'. lookup (PDict cur') R = Some v' \<and> (\<not> isinstance_dict v \<longrightarrow> v' = v)"
proof (induction ps arbitrary: i piece cur cur' R v)
  case Nil
  have ok: "map_of cur (last path) = None" "cur' = dict_set cur (last path) val"
    using fill_last_ok [of path val piece cur cur'] Nil.prems(1) by simp_all
  show ?case
  proof (cases R)
    case Nil
    then show ?thesis using Nil.prems(2) by auto
  next
    case (Cons r rs)
    then have "map_of cur r \<noteq> None"
      using Nil.prems(2) by (auto split: option.splits)
    then have "r \<noteq> last path" using ok(1) by auto
    then show ?thesis
      using Nil.prems(2) Cons ok(2) by (simp add: map_of_dict_set)
  qed
next
  case (Cons p ps)
  obtain c c' where c: "map_of cur p = None \<and> c = [] \<or> map_of cur p = Some (PDict c)"
      and rec: "fill_in_value_loop path val (Suc i) ps (Some p) c = Inr c'"
      and cur': "cur' = dict_set cur p (PDict c')"
    using fill_loop_step_ok [OF Cons.prems(1)] by blast
  show ?case
  proof (cases R)
    case Nil
    then show ?thesis using Cons.prems(2) by auto
  next
    case R: (Cons r rs)
    show ?thesis
    proof (cases "r = p")
      case False
      then show ?thesis
        using Cons.prems(2) R cur' by (simp add: map_of_dict_set)
    next
      case True
      then have "map_of cur p \<noteq> None"
        using Cons.prems(2) R by (auto split: option.splits)
      then have mp: "map_of cur p = Some (PDict c)" using c by auto
      then have "lookup (PDict c) rs = Some v"
        using Cons.prems(2) R True by simp
      then obtain v' where "lookup (PDict c') rs = Some v'" "\<not> isinstance_dict v \<longrightarrow> v' = v"
        using Cons.IH [OF rec] by blast
      then show ?thesis
        using R True cur' by (simp add: map_of_dict_set)
    qed
  qed
qed

lemma fill_loop_leaf_conflict:
  "lookup (PDict cur) P = Some v \<Longrightarrow> \<not> isinstance_dict v \<Longrightarrow>
   fill_in_value_loop path val i (P @ rest) piece cur =
     Inl (STCParseError (SetValueAndItem (join ''.'' (take (i + length P) path))))"
proof (induction P arbitrary: i piece cur)
  case Nil
  then show ?case by auto
next
  case (Cons p P)
  from Cons.prems(1) obtain w where w: "map_of cur p = Some w" "lookup w P = Some v"
    by (auto split: option.splits)
  show ?case
  proof (cases "isinstance_dict w")
    case True
    then obtain c where c: "w = PDict c" by (cases w) auto
    have "fill_in_value_loop path val (Suc i) (P @ rest) (Some p) c =
          Inl (STCParseError (SetValueAndItem (join ''.'' (take (Suc i + length P) path))))"
      using Cons.IH [of c "Suc i" "Some p"] w(2) c Cons.prems(2) by simp
    then show ?thesis
      using w(1) c by (simp add: store_Inl)
  next
    case False
    then have "P = []"
      using w(2) lookup_not_dict_Cons [OF False] by (cases P) auto
    then show ?thesis
      using w(1) False by (cases w) (simp_all add: raise_None)
  qed
qed

lemma fill_loop_container_conflict:
  "lookup (PDict cur) (ps @ last path # Q) = Some v \<Longrightarrow> Q \<noteq> [] \<Longrightarrow>
   fill_in_value_loop path val i ps piece cur =
     Inl (STCParseError (SetValueDirectlyAndItem (join ''.'' path)))"
proof (induction ps arbitrary: i piece cur)
  case Nil
  from Nil.prems(1) obtain w where w: "map_of cur (last path) = Some w" "lookup w Q = Some v"
    by (auto split: option.splits)
  obtain q qs where "Q = q # qs"
    using Nil.prems(2) by (cases Q) auto
  then have "isinstance_dict w"
    using w(2) lookup_Cons_Some by blast
  then show ?case
    using w(1) by (simp add: fill_in_last_def raise_None)
next
  case (Cons p ps)
  from Cons.prems(1) obtain w where w: "map_of cur p = Some w"
      "lookup w (ps @ last path # Q) = Some v"
    by (auto split: option.splits)
  obtain q qs where "ps @ last path # Q = q # qs"
    by (cases ps) auto
  then have "isinstance_dict w"
    using w(2) lookup_Cons_Some by metis
  then obtain c where c: "w = PDict c" by (cases w) auto
  have "fill_in_value_loop path val (Suc i) ps (Some p) c =
        Inl (STCParseError (SetValueDirectlyAndItem (join ''.'' path)))"
    using Cons.IH [of c "Suc i" "Some p"] w(2) c Cons.prems(2) by simp
  then show ?case
    using w(1) c by (simp add: store_Inl)
qed

lemma fill_in_value_lookup:
  assumes "fill_in_value path val t = Inr t'"
  shows "path \<noteq> [] \<and> lookup (PDict t') path = Some val"
proof -
  have ne: "path \<noteq> []"
    using assms by (auto simp: fill_in_value_def split: if_splits)
  then have "fill_in_value_loop path val 0 (butlast path) None t = Inr t'"
    using assms by (simp add: fill_in_value_def)
  then have "lookup (PDict t') (butlast path @ [last path]) = Some val"
    by (rule fill_loop_lookup)
  then show ?thesis using ne by simp
qed

lemma fill_in_value_persist:
  assumes "fill_in_value path val t = Inr t'" "lookup (PDict t) R = Some v"
  shows "\<exists>v'. lookup (PDict t') R = Some v' \<and> (\<not> isinstance_dict v \<longrightarrow> v' = v)"
proof -
  have "fill_in_value_loop path val 0 (butlast path) None t = Inr t'"
    using assms(1) by (auto simp: fill_in_value_def split: if_splits)
  then show ?thesis
    using assms(2) by (rule fill_loop_persist)
qed

lemma fill_in_value_leaf_conflict:
  assumes "lookup (PDict t) P = Some v" "\<not> isinstance_dict v" "Q \<noteq> []"
  shows "fill_in_value (P @ Q) val t = Inl (STCParseError (SetValueAndItem (join ''.'' P)))"
proof -
  have "butlast (P @ Q) = P @ butlast Q"
    using assms(3) by (simp add: butlast_append)
  then have "fill_in_value (P @ Q) val t =
        fill_in_value_loop (P @ Q) val 0 (P @ butlast Q) None t"
    using assms(3) by (simp add: fill_in_value_def)
  then show ?thesis
    using fill_loop_leaf_conflict [OF assms(1,2), of "P @ Q" val 0 "butlast Q" None] by simp
qed

lemma fill_in_value_container_conflict:
  assumes "lookup (PDict t) (P @ Q) = Some v" "P \<noteq> []" "Q \<noteq> []"
  shows "fill_in_value P val t = Inl (STCParseError (SetValueDirectlyAndItem (join ''.'' P)))"
proof -
  have "lookup (PDict t) (butlast P @ last P # Q) = Some v"
    using assms(1,2) by (metis append.assoc append_Cons append_Nil append_butlast_last_id)
  then have "fill_in_value_loop P val 0 (butlast P) None t =
        Inl (STCParseError (SetValueDirectlyAndItem (join ''.'' P)))"
    using assms(3) by (rule fill_loop_container_conflict)
  then show ?thesis
    using assms(2) by (simp add: fill_in_value_def)
qed

section \<open>Facts about the scanner and the tree\<close>

lemma loads_step_parsed:
  assumes "loads_step n l st = Inr st'"
  shows "parsed st' = parsed st \<or>
         (\<exists>path val. fill_in_value path val (parsed st) = Inr (parsed st'))"
proof (cases "in_a_string st")
  case False
  then show ?thesis
    using assms
    by (auto simp: loads_step_def split: if_splits sum.splits prod.splits)
next
  case True
  then show ?thesis
    using assms
    by (auto simp: loads_step_def split: if_splits sum.splits option.splits)
qed

lemma loads_loop_persist:
  "loads_loop n ls st = Inr st' \<Longrightarrow> lookup (PDict (parsed st)) R = Some v \<Longrightarrow>
   \<exists>v'. lookup (PDict (parsed st')) R = Some v' \<and> (\<not> isinstance_dict v \<longrightarrow> v' = v)"
proof (induction ls arbitrary: n st v)
  case Nil
  then show ?case by simp
next
  case (Cons l ls)
  from Cons.prems(1) obtain st1 where st1: "loads_step n l st = Inr st1"
      "loads_loop (Suc n) ls st1 = Inr st'"
    by (auto split: sum.splits)
  have "\<exists>v1. lookup (PDict (parsed st1)) R = Some v1 \<and> (\<not> isinstance_dict v \<longrightarrow> v1 = v)"
    using loads_step_parsed [OF st1(1)] Cons.prems(2) fill_in_value_persist by metis
  then obtain v1 where v1: "lookup (PDict (parsed st1)) R = Some v1"
      "\<not> isinstance_dict v \<longrightarrow> v1 = v"
    by blast
  obtain v' where "lookup (PDict (parsed st')) R = Some v'" "\<not> isinstance_dict v1 \<longrightarrow> v' = v1"
    using Cons.IH [OF st1(2) v1(1)] by blast
  then show ?case using v1(2) by auto
qed

lemma assignment_step_fail:
  assumes "assignment_line n l st path val" "fill_in_value path val (parsed st) = Inl e"
  shows "loads_step n l st = Inl e"
  using assms
  by (cases "in_a_string st") (auto simp: assignment_line_def loads_step_def)

lemma assignment_step_ok:
  assumes "assignment_line n l st path val" "loads_step n l st = Inr st'"
  shows "fill_in_value path val (parsed st) = Inr (parsed st')"
  using assms
  by (cases "in_a_string st")
     (auto simp: assignment_line_def loads_step_def split: sum.splits)

lemma parse_value_not_dict: "parse_value s ln = Inr (x, b) \<Longrightarrow> \<not> isinstance_dict x"
  by (auto simp: parse_value_def raise_parse_error_def split: if_splits option.splits)

lemma assignment_value_leaf: "assignment_line n l st path val \<Longrightarrow> \<not> isinstance_dict val"
  by (cases "in_a_string st") (auto simp: assignment_line_def dest: parse_value_not_dict)

lemma parse_key_loop_result:
  "parse_key_loop key ln pieces acc = Inr path \<Longrightarrow> path = acc @ pieces"
proof (induction pieces arbitrary: acc)
  case Nil
  then show ?case by simp
next
  case (Cons a pieces)
  then have "parse_key_loop key ln pieces (acc @ [a]) = Inr path"
    by (auto split: sum.splits)
  then have "path = (acc @ [a]) @ pieces"
    by (rule Cons.IH)
  then show ?case by simp
qed

lemma parse_key_nonempty: "parse_key key ln = Inr path \<Longrightarrow> path \<noteq> []"
  using parse_key_loop_result [of key ln "split (CHR ''.'') key" "[]" path] split_nonempty
  by (auto simp: parse_key_def)

lemma loads_step_key_path_ok:
  assumes "loads_step n l st = Inr st'" "key_path_ok st"
  shows "key_path_ok st'"
proof (cases "in_a_string st")
  case False
  then show ?thesis
    using assms parse_key_nonempty
    by (auto simp: loads_step_def key_path_ok_def split: if_splits sum.splits prod.splits)
next
  case True
  then show ?thesis
    using assms
    by (auto simp: loads_step_def key_path_ok_def split: if_splits sum.splits option.splits)
qed

lemma loads_loop_key_path_ok:
  "loads_loop n ls st = Inr st' \<Longrightarrow> key_path_ok st \<Longrightarrow> key_path_ok st'"
proof (induction ls arbitrary: n st)
  case Nil
  then show ?case by simp
next
  case (Cons l ls)
  from Cons.prems(1) obtain st1 where st1: "loads_step n l st = Inr st1"
      "loads_loop (Suc n) ls st1 = Inr st'"
    by (auto split: sum.splits)
  show ?case
    using Cons.IH [OF st1(2)] loads_step_key_path_ok [OF st1(1) Cons.prems(2)] by simp
qed

lemma assignment_path_nonempty:
  assumes "loads_loop 0 ls init_state = Inr st" "assignment_line n l st path val"
  shows "path \<noteq> []"
proof (cases "in_a_string st")
  case False
  then show ?thesis
    using assms(2) parse_key_nonempty by (auto simp: assignment_line_def)
next
  case True
  have "key_path_ok st"
    using loads_loop_key_path_ok [OF assms(1)] by (simp add: key_path_ok_def init_state_def)
  then show ?thesis
    using True assms(2) by (auto simp: assignment_line_def key_path_ok_def)
qed

lemma loads_step_enters_string:
  assumes "loads_step n l st = Inr st'" "\<not> in_a_string st" "in_a_string st'"
  shows "CHR '':'' \<in> set l"
  using assms
  by (auto simp: loads_step_def split: if_splits sum.splits prod.splits)

lemma loads_loop_enters_string:
  "loads_loop n ls st = Inr st' \<Longrightarrow> \<not> in_a_string st \<Longrightarrow> in_a_string st' \<Longrightarrow>
   \<exists>l \<in> set ls. CHR '':'' \<in> set l"
proof (induction ls arbitrary: n st)
  case Nil
  then show ?case by simp
next
  case (Cons l ls)
  from Cons.prems(1) obtain st1 where st1: "loads_step n l st = Inr st1"
      "loads_loop (Suc n) ls st1 = Inr st'"
    by (auto split: sum.splits)
  show ?case
  proof (cases "in_a_string st1")
    case True
    then show ?thesis
      using loads_step_enters_string [OF st1(1) Cons.prems(2)] by simp
  next
    case False
    then show ?thesis
      using Cons.IH [OF st1(2) False Cons.prems(3)] by auto
  qed
qed

lemma assignment_has_colon:
  assumes "loads_loop 0 ls init_state = Inr st" "assignment_line n l st path val"
  shows "\<exists>x \<in> set (ls @ [l]). CHR '':'' \<in> set x"
proof (cases "in_a_string st")
  case False
  then show ?thesis
    using assms(2) by (auto simp: assignment_line_def)
next
  case True
  then show ?thesis
    using loads_loop_enters_string [OF assms(1)] by (auto simp: init_state_def)
qed

lemma split_line_subset: "l \<in> set (split sep s) \<Longrightarrow> set l \<subseteq> set s"
proof (induction s arbitrary: l)
  case Nil
  then show ?case by simp
next
  case (Cons c s)
  obtain w ws where w: "split sep s = w # ws"
    using split_nonempty [of sep s] by (cases "split sep s") auto
  have ih: "set w \<subseteq> set s" "\<And>x. x \<in> set ws \<Longrightarrow> set x \<subseteq> set s"
    using Cons.IH w by simp_all
  show ?case
  proof (cases "c = sep")
    case True
    then show ?thesis using Cons.prems w ih by auto
  next
    case False
    then have "l = c # w \<or> l \<in> set ws"
      using Cons.prems w by simp
    then show ?thesis using ih by auto
  qed
qed

lemma dropWhile_keeps: "x \<in> set xs \<Longrightarrow> \<not> P x \<Longrightarrow> x \<in> set (dropWhile P xs)"
  by (induction xs) auto

lemma strip_keeps: "c \<in> set s \<Longrightarrow> \<not> isspace c \<Longrightarrow> c \<in> set (strip s)"
  by (simp add: strip_def lstrip_def rstrip_def dropWhile_keeps)

lemma colon_not_space: "\<not> isspace (CHR '':'')"
  by (simp add: isspace_def code_def)

lemma colon_document_not_empty_dict:
  assumes "l \<in> set (split nl s)" "CHR '':'' \<in> set l"
  shows "strip s \<noteq> ''{}''"
proof -
  have "CHR '':'' \<in> set s"
    using assms split_line_subset by blast
  then have "CHR '':'' \<in> set (strip s)"
    using colon_not_space by (rule strip_keeps)
  then show ?thesis by auto
qed

section \<open>One-line documents and keys with a dollar sign\<close>

lemma strip_leading_space: "isspace c \<Longrightarrow> strip (c # s) = strip s"
  by (simp add: strip_def lstrip_def)

lemma space_is_space: "isspace (CHR '' '')"
  by (simp add: isspace_def code_def)

lemma a_not_space: "\<not> isspace (CHR ''a'')"
  by (simp add: isspace_def code_def)

lemma single_line_failure:
  assumes "nl \<notin> set val" "strip val = val"
    "parse_value val (Some 1) = Inl e"
  shows "loads None (''a: '' @ val) Python = Inl e"
proof -
  have sp: "split nl (''a: '' @ val) = [''a: '' @ val]"
    using assms(1) by (intro split_no_sep) (auto simp: nl_def)
  obtain t where t: "strip (''a: '' @ val) = CHR ''a'' # t"
    using strip_Cons_nonspace [OF a_not_space, of "'': '' @ val"] by auto
  have v: "strip (CHR '' '' # val) = val"
    using assms(2) by (simp add: strip_leading_space space_is_space)
  have "loads_step 0 (''a: '' @ val) init_state = Inl e"
    using assms(3) t v
    by (simp add: loads_step_def init_state_def strip_a parse_key_a)
  then have "loads_loop 0 [''a: '' @ val] init_state = Inl e"
    by simp
  then have "loads_loop 0 (split nl (''a: '' @ val)) init_state = Inl e"
    by (simp only: sp)
  then show ?thesis
    using t by (simp add: loads_def)
qed


lemma dollar_not_identifier: "CHR ''$'' \<in> set p \<Longrightarrow> \<not> isidentifier p"
proof -
  have a: "\<not> xid_start (CHR ''$'')" "\<not> xid_continue (CHR ''$'')"
    by (simp_all add: xid_start_def xid_continue_def code_def)
  assume "CHR ''$'' \<in> set p"
  then show ?thesis
    using a by (cases p) (auto simp: isidentifier_def list_all_iff)
qed

lemma check_piece_no_dollar:
  "check_piece key ln p = Inr () \<or> check_piece key ln p = raise_parse_error (InvalidKeyIdentifier key) ln"
  if "CHR ''$'' \<notin> set p"
  using that by (cases p) (auto simp: check_piece_def isidentifier_def)

lemma parse_key_loop_dollar:
  "\<exists>p \<in> set pieces. CHR ''$'' \<in> set p \<Longrightarrow>
   parse_key_loop key ln pieces acc = raise_parse_error (InvalidKeyIdentifier key) ln"
proof (induction pieces arbitrary: acc)
  case Nil
  then show ?case by simp
next
  case (Cons p pieces)
  show ?case
  proof (cases "CHR ''$'' \<in> set p")
    case True
    then show ?thesis
      using dollar_not_identifier by (simp add: check_piece_def raise_parse_error_def split: option.splits)
  next
    case False
    then have "\<exists>p \<in> set pieces. CHR ''$'' \<in> set p"
      using Cons.prems by auto
    then have "parse_key_loop key ln pieces (acc @ [p]) = raise_parse_error (InvalidKeyIdentifier key) ln"
      by (rule Cons.IH)
    then show ?thesis
      using check_piece_no_dollar [OF False, of key ln]
      by (auto simp: raise_parse_error_def split: option.splits)
  qed
qed

lemma split_keeps_char:
  "c \<in> set s \<Longrightarrow> c \<noteq> sep \<Longrightarrow> \<exists>l \<in> set (split sep s). c \<in> set l"
proof (induction s)
  case Nil
  then show ?case by simp
next
  case (Cons x s)
  obtain w ws where w: "split sep s = w # ws"
    using split_nonempty [of sep s] by (cases "split sep s") auto
  show ?case
  proof (cases "c = x")
    case True
    then show ?thesis using Cons.prems w by auto
  next
    case False
    then have "\<exists>l \<in> set (split sep s). c \<in> set l"
      using Cons by auto
    then show ?thesis using w by auto
  qed
qed

lemma parse_key_rejects_dollar:
  assumes "CHR ''$'' \<in> set key"
  shows "parse_key key ln = raise_parse_error (InvalidKeyIdentifier key) ln"
proof -
  have "\<exists>p \<in> set (split (CHR ''.'') key). CHR ''$'' \<in> set p"
    using assms by (intro split_keeps_char) auto
  then show ?thesis
    unfolding parse_key_def by (rule parse_key_loop_dollar)
qed

section \<open>The properties\<close>

text \<open>
  C1 (defect of the code). A document that builds a list with \<open>$N\<close> segments should decode
  to that list in any order of its lines. \<open>parse_key\<close> asks \<open>isidentifier\<close> of every piece
  before it looks for the \<open>$\<close>, and no identifier contains a \<open>$\<close>: both example documents
  are rejected at their first line as invalid keys.
\<close>

theorem indexed_keys_rejected_by_parse_key:
  "loads None (join [nl] [''a.$1: 2'', ''a.$0: 1'']) Python
     = Inl (STCParseError (Line 1 (InvalidKeyIdentifier ''a.$1''))) \<and>
   loads None (join [nl] [''a.$0: 1'', ''a.$1: 2'']) Python
     = Inl (STCParseError (Line 1 (InvalidKeyIdentifier ''a.$0'')))"
  by code_simp

text \<open>
  C2, as the specification has it, fails: a content line of \<open>f\<close> backticks followed by a
  space is not a line of backticks only, yet it closes the block, because the scanner
  compares the right-trimmed line with the fence. Here the rest of the content is then
  read as an ordinary line.
\<close>

theorem trailing_space_fence_closes_block:
  "no_backtick_only_line 3 (join [nl] [''x'', ''``` '', ''y'']) \<and>
   loads None (fenced ''a'' 3 (join [nl] [''x'', ''``` '', ''y''])) Python
     = Inl (STCParseError (MissingColon 4 ''y''))"
  by code_simp

text \<open>
  C2, amended: for every fence length \<open>f \<ge> 3\<close> and every content \<open>C\<close> none of whose lines,
  right-trimmed of white space, is exactly \<open>f\<close> backticks, decoding \<open>C\<close> wrapped in fences
  of length \<open>f\<close> under the key \<open>a\<close> yields exactly \<open>{"a": C}\<close>.
\<close>

theorem string_block_round_trip:
  assumes "3 \<le> f" "\<forall>l \<in> set (split nl C). rstrip l \<noteq> replicate f (CHR 0x60)"
  shows "loads None (fenced ''a'' f C) Python = Inr (PDict [(''a'', PStr C)])"
proof -
  let ?open = "''a: '' @ replicate f (CHR 0x60)"
  let ?st1 = "init_state\<lparr>in_a_string := True, string_value := [],
                string_key_path := Some [''a''], bt_count := PInt (int f)\<rparr>"
  let ?st2 = "?st1\<lparr>string_value :=
                string_value ?st1 @ concat (map (\<lambda>l. l @ [nl]) (split nl C))\<rparr>"
  let ?st3 = "?st2\<lparr>in_a_string := False, string_value := [], bt_count := PInt (- 1),
                  string_key_path := None, parsed := [(''a'', PStr C)]\<rparr>"
  have s1: "loads_step 0 ?open init_state = Inr ?st1"
    using opening_step [OF assms(1), of init_state 0] by (simp add: init_state_def)
  have s2: "loads_loop 1 (split nl C) ?st1 = Inr ?st2"
    using content_loop [of ?st1 f "split nl C" 1] assms(2) by simp
  have s3: "loads_step (1 + length (split nl C)) (replicate f (CHR 0x60)) ?st2 = Inr ?st3"
    using closing_step [of ?st2 f C "''a''" "1 + length (split nl C)"]
    by (simp add: concat_split init_state_def)
  have "loads_loop 0 (?open # split nl C @ [replicate f (CHR 0x60)]) init_state =
        loads_loop (Suc 0) (split nl C @ [replicate f (CHR 0x60)]) ?st1"
    using s1 by (rule loads_loop_Cons_ok)
  also have "\<dots> = Inr ?st3"
    using s2 s3 by (simp add: loads_loop_append)
  finally have "loads_loop 0 (split nl (fenced ''a'' f C)) init_state = Inr ?st3"
    by (simp only: split_fenced)
  then show ?thesis
    by (simp add: loads_def strip_fenced_a init_state_def)
qed

theorem string_block_round_trip_witness:
  "loads None (fenced ''a'' 3 (join [nl] [''hello'', ''````'', ''world''])) Python
     = Inr (PDict [(''a'', PStr (join [nl] [''hello'', ''````'', ''world'']))])"
proof -
  have "\<forall>l \<in> set (split nl (join [nl] [''hello'', ''````'', ''world''])).
          rstrip l \<noteq> replicate 3 (CHR 0x60)"
    by code_simp
  then show ?thesis
    using string_block_round_trip [of 3 "join [nl] [''hello'', ''````'', ''world'']"] by simp
qed

text \<open>
  C3 (defect of the code). A second assignment to the same key path should fail with a
  parse error. The message of that error reads \<open>current[piece]\<close>, the loop variable of the
  walk over \<open>path[:-1]\<close>: for a path of one piece the variable is unbound, and for
  \<open>a.b\<close> it is \<open>a\<close>, which is not a key of the dictionary that holds \<open>b\<close>. The exception
  raised is then not a parse error.
\<close>

theorem duplicate_leaf_raises_other_exception:
  "loads None (join [nl] [''a: 1'', ''a: 2'']) Python = Inl (UnboundLocalError ''piece'') \<and>
   loads None (join [nl] [''a.b: 1'', ''a.b: 2'']) Python = Inl (KeyError ''a'')"
  by code_simp

text \<open>
  C4 (defect of the code). A container of index keys should finalize only when its
  indices are exactly \<open>0, \<dots>, n-1\<close>. \<open>finalize_dict\<close> compares only the least index with
  \<open>0\<close> and the greatest with \<open>n-1\<close>: the keys \<open>$0\<close>, \<open>$00\<close>, \<open>$2\<close> have a duplicate and a
  gap and are accepted, and position 1 of the list stays \<open>None\<close>.
\<close>

theorem finalize_accepts_gap_and_duplicate:
  "finalize_dict [(''$0'', PInt 1), (''$00'', PInt 2), (''$2'', PInt 3)] ''a''
     = Inr (PList [PInt 2, PNone, PInt 3])"
  by code_simp

text \<open>
  C5, as the specification has it, fails: \<open>parse_value\<close> does not classify the token
  \<open>123\<close> wrapped in single backticks as the start of a string block, it rejects it at
  once, and the decode fails at line 1 with the invalid-value error, not for a missing
  closing fence.
\<close>

theorem backtick_number_fails_at_once:
  "parse_value ''`123`'' (Some 1) = Inl (STCParseError (Line 1 (InvalidValue ''`123`''))) \<and>
   loads None ''a: `123`'' Python = Inl (STCParseError (Line 1 (InvalidValue ''`123`'')))"
  by code_simp

text \<open>
  C5, amended: every value token that begins with a backtick, is not \<open>true\<close> or \<open>false\<close> in
  single backticks, and does not begin with three backticks is rejected by \<open>parse_value\<close>
  at once with the invalid-value parse error; the decode of \<open>a: \<close> followed by such a token
  (a token of one line, without white space around it) fails at line 1 with that error.
\<close>

theorem short_backtick_token_rejected:
  assumes "startswith val ''`''" "val \<noteq> ''`true`''" "val \<noteq> ''`false`''"
    "\<not> startswith val ''```''"
  shows "parse_value val ln = raise_parse_error (InvalidValue val) ln \<and>
         (nl \<notin> set val \<and> strip val = val \<longrightarrow>
            loads None (''a: '' @ val) Python = Inl (STCParseError (Line 1 (InvalidValue val))))"
proof -
  have pv: "parse_value val l = raise_parse_error (InvalidValue val) l" for l
    using assms by (rule parse_value_short_backticks)
  have "parse_value val (Some 1) = Inl (STCParseError (Line 1 (InvalidValue val)))"
    by (simp add: pv raise_parse_error_def)
  then show ?thesis
    using pv single_line_failure by blast
qed

theorem short_backtick_token_rejected_witness:
  "parse_value ''`True`'' None = Inl (STCParseError (InvalidValue ''`True`'')) \<and>
   loads None ''a: `True`'' Python = Inl (STCParseError (Line 1 (InvalidValue ''`True`'')))"
proof -
  have h: "startswith ''`True`'' ''`''" "''`True`'' \<noteq> ''`true`''" "''`True`'' \<noteq> ''`false`''"
    "\<not> startswith ''`True`'' ''```''"
    by code_simp+
  have g: "nl \<notin> set ''`True`''" "strip ''`True`'' = ''`True`''"
    by code_simp+
  show ?thesis
    using short_backtick_token_rejected [OF h, of None] g
    by (simp add: raise_parse_error_def)
qed

text \<open>
  C6. In any document, let \<open>l1\<close> and, later, \<open>l2\<close> be two lines on which the scanner
  assigns the key paths \<open>path1\<close> and \<open>path2\<close>, the lines up to \<open>l2\<close> being accepted. If
  \<open>path1\<close> is a strict prefix of \<open>path2\<close>, the decode fails with the parse error of line
  100 of the source (the key is set both a value and an attribute); if \<open>path2\<close> is a strict
  prefix of \<open>path1\<close>, it fails with the parse error of line 107 (the key is set both a
  value directly and an attribute). Both are the conflict of a leaf with a container.
\<close>

theorem prefix_assignments_conflict:
  assumes doc: "split nl stc_str = pre @ l1 # mid @ l2 # post"
    and pre: "loads_loop 0 pre init_state = Inr st1"
    and a1: "assignment_line (length pre) l1 st1 path1 val1"
    and mid: "loads_loop 0 (pre @ l1 # mid) init_state = Inr st2"
    and a2: "assignment_line (length pre + 1 + length mid) l2 st2 path2 val2"
    and Q: "Q \<noteq> []"
  shows "(path2 = path1 @ Q \<longrightarrow>
            loads None stc_str Python =
              Inl (STCParseError (SetValueAndItem (join ''.'' path1)))) \<and>
         (path1 = path2 @ Q \<longrightarrow>
            loads None stc_str Python =
              Inl (STCParseError (SetValueDirectlyAndItem (join ''.'' path2))))"
proof -
  have "loads_loop (length pre) (l1 # mid) st1 = Inr st2"
    using mid pre by (simp add: loads_loop_append)
  then obtain st1' where step1: "loads_step (length pre) l1 st1 = Inr st1'"
      and rest1: "loads_loop (Suc (length pre)) mid st1' = Inr st2"
    by (auto split: sum.splits)
  have "fill_in_value path1 val1 (parsed st1) = Inr (parsed st1')"
    using a1 step1 by (rule assignment_step_ok)
  then have lk1: "path1 \<noteq> []" "lookup (PDict (parsed st1')) path1 = Some val1"
    using fill_in_value_lookup by blast+
  have leaf: "\<not> isinstance_dict val1"
    using a1 by (rule assignment_value_leaf)
  have lk2: "lookup (PDict (parsed st2)) path1 = Some val1"
    using loads_loop_persist [OF rest1 lk1(2)] leaf by auto
  obtain x where "x \<in> set (pre @ [l1])" "CHR '':'' \<in> set x"
    using assignment_has_colon [OF pre a1] by blast
  then have "x \<in> set (split nl stc_str)" "CHR '':'' \<in> set x"
    using doc by auto
  then have not_empty: "strip stc_str \<noteq> ''{}''"
    by (rule colon_document_not_empty_dict)
  have len: "length (pre @ l1 # mid) = length pre + 1 + length mid"
    by simp
  have loop: "loads_loop 0 (split nl stc_str) init_state =
      loads_loop (length pre + 1 + length mid) (l2 # post) st2"
  proof -
    have "loads_loop 0 ((pre @ l1 # mid) @ l2 # post) init_state =
          loads_loop (0 + length (pre @ l1 # mid)) (l2 # post) st2"
      using mid by (simp only: loads_loop_append sum.case)
    then show ?thesis
      using doc len by simp
  qed
  have fail: "loads None stc_str Python = Inl e"
    if "fill_in_value path2 val2 (parsed st2) = Inl e" for e
  proof -
    have "loads_step (length pre + 1 + length mid) l2 st2 = Inl e"
      using a2 that by (rule assignment_step_fail)
    then have "loads_loop 0 (split nl stc_str) init_state = Inl e"
      using loop by simp
    then show ?thesis
      using not_empty by (simp add: loads_def)
  qed
  have first: "loads None stc_str Python = Inl (STCParseError (SetValueAndItem (join ''.'' path1)))"
    if "path2 = path1 @ Q"
    using fail fill_in_value_leaf_conflict [OF lk2 leaf Q, of val2] that by simp
  have second: "loads None stc_str Python =
      Inl (STCParseError (SetValueDirectlyAndItem (join ''.'' path2)))"
    if p: "path1 = path2 @ Q"
  proof -
    have "path2 \<noteq> []"
      using mid a2 by (rule assignment_path_nonempty)
    then show ?thesis
      using fail fill_in_value_container_conflict [of "parsed st2" path2 Q val1 val2] lk2 Q p
      by simp
  qed
  show ?thesis using first second by blast
qed

text \<open>
  The two documents of the claim, and one whose first assignment is a string block.
\<close>

theorem prefix_assignments_conflict_witness:
  "loads None (join [nl] [''a.b: 1'', ''a.b.c: 2'']) Python
     = Inl (STCParseError (SetValueAndItem ''a.b'')) \<and>
   loads None (join [nl] [''a.b.c: 2'', ''a.b: 1'']) Python
     = Inl (STCParseError (SetValueDirectlyAndItem ''a.b'')) \<and>
   loads None (join [nl] [''a.b: ```'', ''x'', ''```'', ''a.b.c: 2'']) Python
     = Inl (STCParseError (SetValueAndItem ''a.b''))"
proof -
  let ?t1 = "init_state\<lparr>parsed := [(''a'', PDict [(''b'', PInt 1)])]\<rparr>"
  let ?t2 = "init_state\<lparr>parsed := [(''a'', PDict [(''b'', PDict [(''c'', PInt 2)])])]\<rparr>"
  let ?s0 = "init_state\<lparr>in_a_string := True, string_value := ''x'' @ [nl],
               string_key_path := Some [''a'', ''b''], bt_count := PInt 3\<rparr>"
  let ?s1 = "init_state\<lparr>parsed := [(''a'', PDict [(''b'', PStr ''x'')])]\<rparr>"
  have d1: "split nl (join [nl] [''a.b: 1'', ''a.b.c: 2''])
              = [] @ ''a.b: 1'' # [] @ ''a.b.c: 2'' # []"
    by code_simp
  have d2: "split nl (join [nl] [''a.b.c: 2'', ''a.b: 1''])
              = [] @ ''a.b.c: 2'' # [] @ ''a.b: 1'' # []"
    by code_simp
  have d3: "split nl (join [nl] [''a.b: ```'', ''x'', ''```'', ''a.b.c: 2''])
              = [''a.b: ```'', ''x''] @ ''```'' # [] @ ''a.b.c: 2'' # []"
    by code_simp
  have p: "loads_loop 0 [] init_state = Inr init_state"
    by simp
  have p3: "loads_loop 0 [''a.b: ```'', ''x''] init_state = Inr ?s0"
    by code_simp
  have x1: "assignment_line (length ([]::string list)) ''a.b: 1'' init_state
              [''a'', ''b''] (PInt 1)"
    by code_simp
  have x2: "assignment_line (length ([]::string list)) ''a.b.c: 2'' init_state
              [''a'', ''b'', ''c''] (PInt 2)"
    by code_simp
  have x3: "assignment_line (length [''a.b: ```'', ''x'']) ''```'' ?s0 [''a'', ''b''] (PStr ''x'')"
    by code_simp
  have m1: "loads_loop 0 ([] @ ''a.b: 1'' # []) init_state = Inr ?t1"
    by code_simp
  have m2: "loads_loop 0 ([] @ ''a.b.c: 2'' # []) init_state = Inr ?t2"
    by code_simp
  have m3: "loads_loop 0 ([''a.b: ```'', ''x''] @ ''```'' # []) init_state = Inr ?s1"
    by code_simp
  have y1: "assignment_line (length ([]::string list) + 1 + length ([]::string list))
              ''a.b.c: 2'' ?t1 [''a'', ''b'', ''c''] (PInt 2)"
    by code_simp
  have y2: "assignment_line (length ([]::string list) + 1 + length ([]::string list))
              ''a.b: 1'' ?t2 [''a'', ''b''] (PInt 1)"
    by code_simp
  have y3: "assignment_line (length [''a.b: ```'', ''x''] + 1 + length ([]::string list))
              ''a.b.c: 2'' ?s1 [''a'', ''b'', ''c''] (PInt 2)"
    by code_simp
  have q: "[''c''] \<noteq> []" by simp
  have "loads None (join [nl] [''a.b: 1'', ''a.b.c: 2'']) Python
     = Inl (STCParseError (SetValueAndItem (join ''.'' [''a'', ''b''])))"
    using prefix_assignments_conflict [OF d1 p x1 m1 y1 q] by simp
  moreover have "loads None (join [nl] [''a.b.c: 2'', ''a.b: 1'']) Python
     = Inl (STCParseError (SetValueDirectlyAndItem (join ''.'' [''a'', ''b''])))"
    using prefix_assignments_conflict [OF d2 p x2 m2 y2 q] by simp
  moreover have "loads None (join [nl] [''a.b: ```'', ''x'', ''```'', ''a.b.c: 2'']) Python
     = Inl (STCParseError (SetValueAndItem (join ''.'' [''a'', ''b''])))"
    using prefix_assignments_conflict [OF d3 p3 x3 m3 y3 q] by simp
  ultimately show ?thesis by simp
qed

text \<open>
  C7. A string block whose opening line is followed at once by the closing fence is
  rejected with the empty-string-block error, raised for line 2; a block with one blank
  content line decodes to the empty string.
\<close>

theorem empty_string_block_forms:
  "loads None (join [nl] [''a: ```'', ''```'']) Python
     = Inl (STCParseError (EmptyStringBlock 2)) \<and>
   loads None (join [nl] [''a: ```'', [], ''```'']) Python = Inr (PDict [(''a'', PStr [])])"
  by code_simp

text \<open>
  C8. When the native engine is absent, \<open>loads\<close> in the mode \<open>'rust'\<close>, which is the
  default, raises \<open>NotImplementedError\<close> for every input. That is not a parse error, and
  the core algorithm is not run: the document \<open>a: 1\<close> decodes in the mode \<open>'python'\<close> and
  fails in the default mode.
\<close>

theorem engine_unavailable_no_fallback:
  "loads None stc_str Rust = Inl NotImplementedError \<and>
   loads_default None stc_str = Inl NotImplementedError \<and>
   (\<forall>m. loads_default None stc_str \<noteq> Inl (STCParseError m)) \<and>
   loads None ''a: 1'' Python = Inr (PDict [(''a'', PInt 1)]) \<and>
   loads_default None ''a: 1'' = Inl NotImplementedError"
proof -
  have "loads None ''a: 1'' Python = Inr (PDict [(''a'', PInt 1)])"
    by code_simp
  then show ?thesis
    by (simp add: loads_def loads_default_def)
qed

text \<open>
  C9. For every value token that begins with three backticks, \<open>parse_value\<close> returns the
  length of the leading run of backticks and nothing else of the token: what follows the
  run is discarded. The document with \<open>extra\<close> after the opening fence decodes to the same
  result as the one without.
\<close>

theorem fence_suffix_discarded:
  "(startswith val ''```'' \<longrightarrow>
      parse_value val ln =
        Inr (PInt (int (length (takeWhile (\<lambda>c. c = CHR 0x60) val))), True)) \<and>
   loads None (join [nl] [''a: ```extra'', ''x'', ''```'']) Python
     = loads None (join [nl] [''a: ```'', ''x'', ''```'']) Python \<and>
   loads None (join [nl] [''a: ```'', ''x'', ''```'']) Python = Inr (PDict [(''a'', PStr ''x'')])"
proof -
  have "loads None (join [nl] [''a: ```extra'', ''x'', ''```'']) Python
          = Inr (PDict [(''a'', PStr ''x'')])"
    by code_simp
  moreover have "loads None (join [nl] [''a: ```'', ''x'', ''```'']) Python
          = Inr (PDict [(''a'', PStr ''x'')])"
    by code_simp
  ultimately show ?thesis
    using parse_value_string_start [of val ln] by simp
qed

theorem fence_suffix_discarded_witness:
  "parse_value ''````extra`'' None = Inr (PInt 4, True)"
proof -
  have "startswith ''````extra`'' ''```''"
    by code_simp
  then show ?thesis
    using fence_suffix_discarded [of "''````extra`''" None] by simp
qed

text \<open>
  C10. \<open>parse_value\<close> returns an integer exactly for the tokens that \<open>int\<close> accepts, and a
  float exactly for the tokens that \<open>int\<close> rejects and \<open>float\<close> accepts. This is wider than
  decimal and scientific literals: \<open>1_000\<close> decodes to the integer 1000 and \<open>inf\<close> to the
  float infinity.
\<close>

theorem numbers_are_int_then_float:
  "(parse_value val ln = Inr (PInt n, False)) = (py_int val = Some n) \<and>
   (parse_value val ln = Inr (PFloat x, False)) = (py_int val = None \<and> py_float val = Some x) \<and>
   parse_value ''1_000'' ln = Inr (PInt 1000, False) \<and>
   parse_value ''inf'' ln = Inr (PFloat (FInf False), False) \<and>
   loads None ''a: 1_000'' Python = Inr (PDict [(''a'', PInt 1000)]) \<and>
   loads None ''a: inf'' Python = Inr (PDict [(''a'', PFloat (FInf False))])"
proof -
  have a: "(parse_value val ln = Inr (PInt n, False)) = (py_int val = Some n)"
    using literals_not_numbers
    by (auto simp add: parse_value_def raise_parse_error_def split: option.splits)
  have b: "(parse_value val ln = Inr (PFloat x, False)) =
           (py_int val = None \<and> py_float val = Some x)"
    using literals_not_numbers
    by (auto simp add: parse_value_def raise_parse_error_def split: option.splits)
  have c: "parse_value ''1_000'' ln = Inr (PInt 1000, False)"
    "parse_value ''inf'' ln = Inr (PFloat (FInf False), False)"
    by code_simp+
  have d: "loads None ''a: 1_000'' Python = Inr (PDict [(''a'', PInt 1000)])"
    "loads None ''a: inf'' Python = Inr (PDict [(''a'', PFloat (FInf False))])"
    by code_simp+
  show ?thesis
    using a b c d by simp
qed

end
